theory Spec2Isabelle
  imports Main "HOL-Library.Word" "HOL-Library.AList"
begin

section \<open>Global rebalance of an AIStore target: configuration, stages, durations\<close>

text \<open>
  The rebalance stage enum of the source (\<^verbatim>\<open>rebStageInactive = iota\<close> and the seven
  constants after it). The manager keeps the stage in an \<^verbatim>\<open>atomic.Uint32\<close> and compares
  it with \<^verbatim>\<open><\<close> and \<^verbatim>\<open>>=\<close>, so the stages are numbers here as well.
\<close>

definition rebStageInactive :: nat where "rebStageInactive = 0"
definition rebStageInit :: nat where "rebStageInit = 1"
definition rebStageTraverse :: nat where "rebStageTraverse = 2"
definition rebStageECNameSpace :: nat where "rebStageECNameSpace = 3"
definition rebStageWaitAck :: nat where "rebStageWaitAck = 4"
definition rebStageFin :: nat where "rebStageFin = 5"
definition rebStageFinStreams :: nat where "rebStageFinStreams = 6"
definition rebStageDone :: nat where "rebStageDone = 7"

text \<open>
  \<^verbatim>\<open>time.Duration\<close> is an \<^verbatim>\<open>int64\<close> count of nanoseconds. Durations are integers
  here, and every arithmetic operation of the source on them is followed by \<open>int64\<close>, the
  wrap-around of a signed 64-bit result. Go's \<^verbatim>\<open>/\<close> on integers truncates towards zero.
\<close>

definition int64 :: "int \<Rightarrow> int" where
  "int64 x = (x + 2 ^ 63) mod 2 ^ 64 - 2 ^ 63"

definition is_int64 :: "int \<Rightarrow> bool" where
  "is_int64 x \<longleftrightarrow> - (2 ^ 63) \<le> x \<and> x < 2 ^ 63"

definition go_div :: "int \<Rightarrow> int \<Rightarrow> int" where
  "go_div a b = (if (a < 0) = (b < 0) then \<bar>a\<bar> div \<bar>b\<bar> else - (\<bar>a\<bar> div \<bar>b\<bar>))"

definition Minute :: int where
  "Minute = 60000000000"

text \<open>
  Modelled from the spec: \<^verbatim>\<open>cmn.MinDur\<close> is called by the rebalance code and is not among
  the sources; the spec writes \<open>min\<close> where the code calls it.
\<close>

definition MinDur :: "int \<Rightarrow> int \<Rightarrow> int" where
  "MinDur a b = (if a < b then a else b)"

text \<open>
  Modelled from the spec: the declaration of \<^verbatim>\<open>cmn.Config\<close> is not among the sources. These
  are the fields that the rebalance code reads, the ones the spec lists: the multiplier, the
  compression, and the three durations. \<^verbatim>\<open>Rebalance.Multiplier\<close> is compared with
  \<^verbatim>\<open>== 0\<close> and converted with \<^verbatim>\<open>int(...)\<close>, an unsigned byte.
\<close>

record config =
  Multiplier :: "8 word"
  Compression :: string
  DestRetryTime :: int
  CplaneOperation :: int
  SendFile :: int

text \<open>
  Modelled from the spec: the type \<^verbatim>\<open>smapX\<close> and its methods are not among the sources.
  The membership snapshot carries its version and its targets, each with a daemon id;
  \<^verbatim>\<open>CountTargets\<close> is their number and \<^verbatim>\<open>GetTarget\<close> looks a target up by its daemon id
  (nil when there is none).
\<close>

record smapX =
  version :: int
  Tmap :: "(string \<times> string) list"

definition CountTargets :: "smapX \<Rightarrow> nat" where
  "CountTargets m = length (Tmap m)"

definition GetTarget :: "smapX \<Rightarrow> string \<Rightarrow> string option" where
  "GetTarget m tsid = map_of (Tmap m) tsid"

section \<open>Streams: \<^verbatim>\<open>beginStreams\<close>\<close>

record sbArgs =
  Network :: string
  Trname :: string
  ExtraCompression :: "string option"
  SBMultiplier :: int
  ManualResync :: bool

definition rebalanceStreamName :: string where "rebalanceStreamName = ''rebalance''"
definition rebalanceAcksName :: string where "rebalanceAcksName = ''remwack''"

text \<open>
  Modelled from the spec: the object locator \<^verbatim>\<open>cluster.LOM\<close> is not among the sources. Of
  an object the model keeps its unique name (\<^verbatim>\<open>Uname()\<close>), its home-hash index (the second
  result of \<^verbatim>\<open>Hkey()\<close>), and what the object store answers for it: whether \<^verbatim>\<open>Load\<close>
  fails, whether the object exists, whether it is a copy, whether
  \<^verbatim>\<open>CksumComputeIfMissing\<close> fails, and whether its file can be opened.
\<close>

record lom =
  Uname :: string
  Hidx :: nat
  loadErr :: bool
  lexists :: bool
  isCopy :: bool
  cksumErr :: bool
  openErr :: bool

text \<open>
  The fields of \<^verbatim>\<open>rebManager\<close> that the functions below read or write. A shard of the
  Ack table (\<^verbatim>\<open>LomAcks\<close>) is its mutex, here whether the goroutine of the call holds it,
  and its map \<^verbatim>\<open>q\<close> from unique names to objects, here an association list whose order is
  the order in which a \<^verbatim>\<open>range\<close> over the map visits it (Go leaves that order open, and so
  does the list).
\<close>

record LomAcks =
  mu :: bool
  q :: "(string \<times> lom) list"

record rebManager =
  netd :: string
  netc :: string
  smap :: "smapX option"
  streams :: "sbArgs option"
  acks :: "sbArgs option"
  lomacks :: "LomAcks list"
  filterGFN :: "string set"
  semaCh :: nat
  laterx :: bool
  globRebID :: int
  stage :: nat

text \<open>
  \<^verbatim>\<open>beginStreams\<close> asserts the stage (\<open>None\<close> is the failed assertion), rewrites a zero
  multiplier of the shared configuration to 1, writes an error line for a multiplier above 8,
  and opens the two bundles. The result carries the configuration as the function leaves it
  (the caller's joggers read the same \<^verbatim>\<open>*cmn.Config\<close> afterwards), the manager, and
  whether the error line was written.
\<close>

definition beginStreams ::
  "'a rebManager_scheme \<Rightarrow> config \<Rightarrow> (config \<times> 'a rebManager_scheme \<times> bool) option" where
  "beginStreams reb cfg =
     (if stage reb \<noteq> rebStageInit then None
      else
        let cfg1 = (if Multiplier cfg = 0 then cfg\<lparr>Multiplier := 1\<rparr> else cfg);
            misconfigured = (Multiplier cfg \<noteq> 0 \<and> Multiplier cfg > 8);
            objs = \<lparr>Network = netd reb, Trname = rebalanceStreamName,
                    ExtraCompression = Some (Compression cfg1),
                    SBMultiplier = uint (Multiplier cfg1), ManualResync = True\<rparr>;
            ackb = \<lparr>Network = netc reb, Trname = rebalanceAcksName,
                    ExtraCompression = None, SBMultiplier = 0, ManualResync = True\<rparr>
        in Some (cfg1, reb\<lparr>streams := Some objs, acks := Some ackb, laterx := False\<rparr>,
                 misconfigured))"

text \<open>
  \<^verbatim>\<open>endStreams\<close>: the compare-and-swap of the stage from \<^verbatim>\<open>rebStageFin\<close> to
  \<^verbatim>\<open>rebStageFinStreams\<close>; the bundles are closed only when it succeeds.
\<close>

definition endStreams :: "'a rebManager_scheme \<Rightarrow> 'a rebManager_scheme" where
  "endStreams reb =
     (if stage reb = rebStageFin then reb\<lparr>stage := rebStageFinStreams, streams := None\<rparr>
      else reb)"

text \<open>
  The capacity of the semaphore that \<^verbatim>\<open>globalRebRun\<close> gives each jogger:
  \<^verbatim>\<open>if multiplier > 1 { sema = make(chan struct{}, multiplier) }\<close>, and no semaphore
  (synchronous sends) otherwise.
\<close>

definition jogger_sema :: "config \<Rightarrow> nat option" where
  "jogger_sema cfg = (if Multiplier cfg > 1 then Some (unat (Multiplier cfg)) else None)"

section \<open>WaitAck: the deadline\<close>

text \<open>
  The first lines of \<^verbatim>\<open>globalRebWaitAck\<close>:
  \<^verbatim>\<open>maxwt := DestRetryTime; maxwt += time.Duration(int64(time.Minute) * int64(CountTargets()/10));
  maxwt = cmn.MinDur(maxwt, DestRetryTime*2)\<close>.
\<close>

definition waitAck_maxwt :: "config \<Rightarrow> smapX \<Rightarrow> int" where
  "waitAck_maxwt cfg m =
     (let maxwt0 = DestRetryTime cfg;
          maxwt1 = int64 (maxwt0 + int64 (Minute * int (CountTargets m div 10)))
      in MinDur maxwt1 (int64 (DestRetryTime cfg * 2)))"

section \<open>The global jogger's \<^verbatim>\<open>send\<close> and the Ack table\<close>

text \<open>
  What a call of the rebalance code does to the target beyond its return value is kept in a
  state: the manager, the shared locks held on objects (by unique name), the xaction's flags,
  a clock that counts the reads of what other goroutines change, the files of the
  configuration directory, and the trace of the calls that the statements below speak about (the
  stream's \<^verbatim>\<open>SendV\<close>, insertions into and deletions from Ack shards, locks and unlocks of
  objects, creation and removal of files, log lines).
\<close>

datatype error = ErrLoad | ErrCksum | ErrOpen | ErrHrw | ErrAborted | ErrSmapChanged

datatype event =
    LomLock string
  | LomUnlock string
  | AckInsert nat string
  | AckDelete nat string
  | SendV string string
  | LogFailedLoading string
  | LogDoesNotExist string
  | LogResending string
  | LogFailedResending string
  | FileCreate string
  | FileRemove string
  | LogCreateFailed string
  | LogRemoveFailed string

record target = rebManager +
  rlocks :: "string \<Rightarrow> nat"
  xaborted :: bool
  xfinished :: bool
  clock :: nat
  errCh :: "error list"
  files :: "string set"
  trace :: "event list"

text \<open>
  What the functions read from outside the target: the daemon id of the target itself, the
  placement function (\<^verbatim>\<open>cluster.HrwTarget\<close>), the answer of the remote HEAD probe
  (\<^verbatim>\<open>lookupRemoteSingle\<close>), whether the stream's \<^verbatim>\<open>SendV\<close> returns an error, the path
  of the marker (\<^verbatim>\<open>persistentMarker(cmn.ActGlobalReb)\<close>), the number of shards
  (\<^verbatim>\<open>fs.LomCacheMask + 1\<close>), whether \<^verbatim>\<open>cmn.CreateFile\<close> and \<^verbatim>\<open>cmn.RemoveFile\<close> fail on
  a path, and, by clock, whether an abort of the xaction has arrived from outside, which
  membership version the owner holds, and whether the receive handler has set \<^verbatim>\<open>laterx\<close>
  since the last look. None of these functions and constants is among the sources.
\<close>

record env =
  selfID :: string
  hrwTarget :: "lom \<Rightarrow> error + string"
  headPresent :: "lom \<Rightarrow> string \<Rightarrow> bool"
  sendvErr :: "string \<Rightarrow> bool"
  abortedAt :: "nat \<Rightarrow> bool"
  nverAt :: "nat \<Rightarrow> int"
  lateAt :: "nat \<Rightarrow> bool"
  markerPath :: string
  nshards :: nat
  createErr :: "string \<Rightarrow> bool"
  removeErr :: "string \<Rightarrow> bool"

text \<open>
  A call returns, blocks forever, or panics. \<^verbatim>\<open>sync.Mutex\<close> is not reentrant: \<^verbatim>\<open>Lock\<close> on
  a mutex that is held does not return until the holder unlocks it, and a goroutine that
  holds it itself never does. An index outside the array of shards panics.
\<close>

datatype 'a res = Returns 'a | Blocks | Panics

definition ack_insert :: "nat \<Rightarrow> lom \<Rightarrow> 'a target_scheme \<Rightarrow> 'a target_scheme" where
  "ack_insert i l s =
     s\<lparr>lomacks := (lomacks s)[i := (lomacks s ! i)\<lparr>q := AList.update (Uname l) l (q (lomacks s ! i))\<rparr>],
       trace := trace s @ [AckInsert i (Uname l)]\<rparr>"

definition ack_delete :: "nat \<Rightarrow> string \<Rightarrow> 'a target_scheme \<Rightarrow> 'a target_scheme" where
  "ack_delete i u s =
     s\<lparr>lomacks := (lomacks s)[i := (lomacks s ! i)\<lparr>q := AList.delete u (q (lomacks s ! i))\<rparr>],
       trace := trace s @ [AckDelete i u]\<rparr>"

definition mu_set :: "nat \<Rightarrow> bool \<Rightarrow> 'a target_scheme \<Rightarrow> 'a target_scheme" where
  "mu_set i b s = s\<lparr>lomacks := (lomacks s)[i := (lomacks s ! i)\<lparr>mu := b\<rparr>]\<rparr>"

definition lom_lock :: "string \<Rightarrow> 'a target_scheme \<Rightarrow> 'a target_scheme" where
  "lom_lock u s = s\<lparr>rlocks := (rlocks s)(u := Suc (rlocks s u)), trace := trace s @ [LomLock u]\<rparr>"

definition lom_unlock :: "string \<Rightarrow> 'a target_scheme \<Rightarrow> 'a target_scheme" where
  "lom_unlock u s = s\<lparr>rlocks := (rlocks s)(u := rlocks s u - 1), trace := trace s @ [LomUnlock u]\<rparr>"

definition logev :: "event \<Rightarrow> 'a target_scheme \<Rightarrow> 'a target_scheme" where
  "logev e s = s\<lparr>trace := trace s @ [e]\<rparr>"

text \<open>
  The label \<^verbatim>\<open>rerr\<close> of \<^verbatim>\<open>send\<close>: unlock the object and return the named result
  \<^verbatim>\<open>err\<close>.
\<close>

definition rerr :: "lom \<Rightarrow> error option \<Rightarrow> 'a target_scheme \<Rightarrow> (error option \<times> 'a target_scheme) res" where
  "rerr l err s = Returns (err, lom_unlock (Uname l) s)"

text \<open>
  \<^verbatim>\<open>globalRebJogger.send\<close>. The object is locked (shared); the unlock of a successful send
  is left to the stream's completion callback. A load error is returned; an object that does
  not exist or is a copy leaves through \<^verbatim>\<open>rerr\<close> with \<^verbatim>\<open>err == nil\<close>. The stream's error
  is bound by \<^verbatim>\<open>if err := ...SendV(...); err != nil\<close> to a variable of that statement, so
  the named result that \<^verbatim>\<open>rerr\<close> returns is still the \<^verbatim>\<open>nil\<close> of
  \<^verbatim>\<open>cmn.NewFileHandle\<close>.
\<close>

definition send :: "env \<Rightarrow> lom \<Rightarrow> string \<Rightarrow> 'a target_scheme \<Rightarrow> (error option \<times> 'a target_scheme) res" where
  "send e l tsi s =
     (let s1 = lom_lock (Uname l) s in
      if loadErr l then rerr l (Some ErrLoad) s1
      else if \<not> lexists l \<or> isCopy l then rerr l None s1
      else if cksumErr l then rerr l (Some ErrCksum) s1
      else if openErr l then rerr l (Some ErrOpen) s1
      else
        let idx = Hidx l in
        if \<not> idx < length (lomacks s1) then Panics
        else if mu (lomacks s1 ! idx) then Blocks
        else
          let s2 = ack_insert idx l s1;
              s3 = logev (SendV (Uname l) tsi) s2
          in if sendvErr e (Uname l) then rerr l None (ack_delete idx (Uname l) s3)
             else Returns (None, s3))"

section \<open>\<^verbatim>\<open>retransmit\<close>\<close>

text \<open>
  The closure \<^verbatim>\<open>aborted\<close> of \<^verbatim>\<open>retransmit\<close>: the xaction is aborted, or the version of
  the snapshot differs from the version that the owner holds now. Each call is one more read
  of the outside.
\<close>

definition aborted :: "env \<Rightarrow> int \<Rightarrow> 'a target_scheme \<Rightarrow> bool \<times> 'a target_scheme" where
  "aborted e ver s =
     (xaborted s \<or> abortedAt e (clock s) \<or> ver \<noteq> nverAt e (clock s), s\<lparr>clock := Suc (clock s)\<rparr>)"

text \<open>
  The loop over the entries of one shard, whose mutex the caller holds. The entries are
  those of the map when the \<^verbatim>\<open>range\<close> starts; the body deletes only the entry it is at.
  The result says whether the loop left through \<^verbatim>\<open>return 0\<close> (after unlocking the shard),
  and gives the counter. The source drops the error of \<^verbatim>\<open>cluster.HrwTarget\<close> and goes on
  with the nil target that comes with it; what the probe and the stream do with a nil target
  is not in the sources, and the model stops there with a panic.
\<close>

fun retransmit_q ::
  "env \<Rightarrow> int \<Rightarrow> nat \<Rightarrow> (string \<times> lom) list \<Rightarrow> nat \<Rightarrow> 'a target_scheme \<Rightarrow> (bool \<times> nat \<times> 'a target_scheme) res" where
  "retransmit_q e ver i [] cnt s = Returns (False, cnt, s)"
| "retransmit_q e ver i ((uname, l) # es) cnt s =
     (if loadErr l then
        retransmit_q e ver i es cnt (ack_delete i uname (logev (LogFailedLoading uname) s))
      else if \<not> lexists l then
        retransmit_q e ver i es cnt (ack_delete i uname (logev (LogDoesNotExist uname) s))
      else
        (case hrwTarget e l of
           Inl _ \<Rightarrow> Panics
         | Inr tsi \<Rightarrow>
             if headPresent e l tsi then retransmit_q e ver i es cnt (ack_delete i uname s)
             else
               (case send e l tsi s of
                  Blocks \<Rightarrow> Blocks
                | Panics \<Rightarrow> Panics
                | Returns (err, s1) \<Rightarrow>
                    let cnt1 = (if err = None then Suc cnt else cnt);
                        s2 = logev (if err = None then LogResending uname
                                    else LogFailedResending uname) s1;
                        (ab, s3) = aborted e ver s2
                    in if ab then Returns (True, 0, mu_set i False s3)
                       else retransmit_q e ver i es cnt1 s3)))"

text \<open>The loop over the shards, and \<^verbatim>\<open>retransmit\<close> itself.\<close>

fun retransmit_shards ::
  "env \<Rightarrow> int \<Rightarrow> nat list \<Rightarrow> nat \<Rightarrow> 'a target_scheme \<Rightarrow> (nat \<times> 'a target_scheme) res" where
  "retransmit_shards e ver [] cnt s = Returns (cnt, s)"
| "retransmit_shards e ver (i # rest) cnt s =
     (if mu (lomacks s ! i) then Blocks
      else
        (case retransmit_q e ver i (q (lomacks s ! i)) cnt (mu_set i True s) of
           Blocks \<Rightarrow> Blocks
         | Panics \<Rightarrow> Panics
         | Returns (left, cnt1, s1) \<Rightarrow>
             if left then Returns (0, s1)
             else
               let (ab, s2) = aborted e ver (mu_set i False s1)
               in if ab then Returns (0, s2) else retransmit_shards e ver rest cnt1 s2))"

definition retransmit :: "env \<Rightarrow> int \<Rightarrow> 'a target_scheme \<Rightarrow> (nat \<times> 'a target_scheme) res" where
  "retransmit e ver s =
     (let (ab, s1) = aborted e ver s
      in if ab then Returns (0, s1)
         else retransmit_shards e ver [0..<length (lomacks s1)] 0 s1)"


text \<open>
  For the statements about \<^verbatim>\<open>retransmit\<close>: whether the entry is dropped without a send
  (the object fails to load, does not exist any more, or the HEAD probe finds it at its
  home), what a check of \<^verbatim>\<open>aborted\<close> made at clock \<open>k\<close> says, and the events
  that record a call of the stream's \<^verbatim>\<open>SendV\<close>.
\<close>

definition head_ok :: "env \<Rightarrow> lom \<Rightarrow> bool" where
  "head_ok e l = (case hrwTarget e l of Inl _ \<Rightarrow> False | Inr tsi \<Rightarrow> headPresent e l tsi)"

definition abort_seen :: "env \<Rightarrow> int \<Rightarrow> 'a target_scheme \<Rightarrow> nat \<Rightarrow> bool" where
  "abort_seen e ver s k \<longleftrightarrow> xaborted s \<or> abortedAt e k \<or> ver \<noteq> nverAt e k"

fun is_sendv :: "event \<Rightarrow> bool" where
  "is_sendv (SendV u tsi) = True"
| "is_sendv ev = False"

text \<open>
  The invariant that \<^verbatim>\<open>send\<close> gives the Ack table: an object is filed under its unique
  name in the shard of its home-hash index.
\<close>

definition acks_wf :: "'a target_scheme \<Rightarrow> bool" where
  "acks_wf s \<longleftrightarrow>
     (\<forall>i < length (lomacks s). \<forall>(u, l) \<in> set (q (lomacks s ! i)). Uname l = u \<and> Hidx l = i)"

section \<open>The global jogger's walk\<close>

record dirEntry =
  deIsDir :: bool
  deLom :: "lom option"

record jogger =
  jver :: int
  jsema :: "nat option"

text \<open>
  \<^verbatim>\<open>globalRebJogger.walk\<close>, the callback of the traversal. \<open>deLom\<close> is the object that
  \<^verbatim>\<open>lom.Init\<close> builds from the path, \<open>None\<close> when it fails. With a semaphore the send runs
  in a goroutine of its own and its error goes to the error channel; the model runs that
  goroutine to its end before the callback returns, one of the schedules the program has.
\<close>

definition walk :: "env \<Rightarrow> jogger \<Rightarrow> dirEntry \<Rightarrow> 'a target_scheme \<Rightarrow> (error option \<times> 'a target_scheme) res" where
  "walk e rj de s =
     (if xaborted s \<or> abortedAt e (clock s) \<or> xfinished s then Returns (Some ErrAborted, s)
      else if deIsDir de then Returns (None, s)
      else
        (case deLom de of
           None \<Rightarrow> Returns (None, s)
         | Some l \<Rightarrow>
             (case hrwTarget e l of
                Inl err \<Rightarrow> Returns (Some err, s)
              | Inr tsi \<Rightarrow>
                  if tsi = selfID e then Returns (None, s)
                  else if nverAt e (clock s) > jver rj then
                    Returns (Some ErrSmapChanged, s\<lparr>xaborted := True\<rparr>)
                  else if Uname l \<in> filterGFN s then
                    Returns (None, s\<lparr>filterGFN := filterGFN s - {Uname l}\<rparr>)
                  else if loadErr l then Returns (Some ErrLoad, s)
                  else
                    (case jsema rj of
                       None \<Rightarrow> send e l tsi s
                     | Some _ \<Rightarrow>
                         (case send e l tsi s of
                            Returns (ers, s1) \<Rightarrow>
                              Returns (None, s1\<lparr>errCh := errCh s1 @ (case ers of None \<Rightarrow> [] | Some x \<Rightarrow> [x])\<rparr>)
                          | Blocks \<Rightarrow> Blocks
                          | Panics \<Rightarrow> Panics)))))"

section \<open>The serializer\<close>

text \<open>
  The xaction that the registry returns for \<^verbatim>\<open>cmn.ActGlobalReb\<close>, and what one pass of the
  loop of \<^verbatim>\<open>serialize\<close> sees: the tokens in \<^verbatim>\<open>semaCh\<close>, the version of the membership
  that the owner holds, the generation id published last, and the registry's entry. Other
  goroutines change all four while \<^verbatim>\<open>serialize\<close> sleeps, so the loop takes the list of
  what its successive passes see, and \<open>None\<close> is a loop that is still waiting when the list
  ends.
\<close>

record xactGlobalReb =
  smapVersion :: int
  xactFinished :: bool

record serView =
  vsemaCh :: nat
  vnver :: int
  vglobRebID :: int
  ventry :: "xactGlobalReb option"

text \<open>
  The result: \<^verbatim>\<open>newerSmap\<close>, \<^verbatim>\<open>alreadyRunning\<close>, the view as the call leaves it (the
  token taken or put back), and the membership versions of the xactions it asked to abort.
  \<open>Panics\<close> is the failed \<^verbatim>\<open>cmn.Assert(otherXreb.Finished())\<close>.
\<close>

fun serialize_loop ::
  "int \<Rightarrow> int \<Rightarrow> bool \<Rightarrow> int list \<Rightarrow> serView list \<Rightarrow> (bool \<times> bool \<times> serView \<times> int list) res option" where
  "serialize_loop ver g canRun abrt [] = None"
| "serialize_loop ver g canRun abrt (w # ws) =
     (let taken = (0 < vsemaCh w);
          canRun1 = (canRun \<or> taken);
          w1 = (if taken then w\<lparr>vsemaCh := vsemaCh w - 1\<rparr> else w);
          put_back = (if canRun1 then w1\<lparr>vsemaCh := vsemaCh w1 + 1\<rparr> else w1)
      in if vnver w1 > ver then Some (Returns (True, False, put_back, abrt))
         else if vglobRebID w1 = g then Some (Returns (False, True, put_back, abrt))
         else
           (case ventry w1 of
              None \<Rightarrow>
                if canRun1 then Some (Returns (False, False, w1, abrt))
                else serialize_loop ver g canRun1 abrt ws
            | Some other \<Rightarrow>
                if canRun1 then
                  (if xactFinished other then Some (Returns (False, False, w1, abrt))
                   else Some Panics)
                else if smapVersion other < ver \<and> \<not> xactFinished other then
                  serialize_loop ver g canRun1 (abrt @ [smapVersion other]) ws
                else serialize_loop ver g canRun1 abrt ws))"

definition serialize :: "int \<Rightarrow> int \<Rightarrow> serView list \<Rightarrow> (bool \<times> bool \<times> serView \<times> int list) res option" where
  "serialize ver g views = serialize_loop ver g False [] views"

text \<open>
  \<^verbatim>\<open>globalRebPrecheck\<close> goes on to Init only when \<^verbatim>\<open>serialize\<close> returns neither flag.
\<close>

definition admitted :: "(bool \<times> bool \<times> serView \<times> int list) res option \<Rightarrow> bool" where
  "admitted r = (case r of Some (Returns (newerSmap, alreadyRunning, _, _)) \<Rightarrow>
                   \<not> (newerSmap \<or> alreadyRunning) | _ \<Rightarrow> False)"

section \<open>The in-progress marker: \<^verbatim>\<open>globalRebInit\<close> and \<^verbatim>\<open>globalRebFini\<close>\<close>

record globalRebArgs =
  md_smap :: smapX
  md_config :: config
  pmarker :: string
  md_globRebID :: int

text \<open>
  Modelled from the spec: \<^verbatim>\<open>cmn.CreateFile\<close> and \<^verbatim>\<open>cmn.RemoveFile\<close> are not among the
  sources. On the files of the configuration directory, a call that succeeds adds or takes
  away the path (the marker is "created at Init, removed at Fin"), and a call that fails
  leaves the files as they are. The trace has the call either way.
\<close>

definition CreateFile :: "env \<Rightarrow> string \<Rightarrow> 'a target_scheme \<Rightarrow> bool \<times> 'a target_scheme" where
  "CreateFile e p s =
     (if createErr e p then (False, logev (FileCreate p) s)
      else (True, logev (FileCreate p) (s\<lparr>files := insert p (files s)\<rparr>)))"

definition RemoveFile :: "env \<Rightarrow> string \<Rightarrow> 'a target_scheme \<Rightarrow> bool \<times> 'a target_scheme" where
  "RemoveFile e p s =
     (if removeErr e p then (False, logev (FileRemove p) s)
      else (True, logev (FileRemove p) (s\<lparr>files := files s - {p}\<rparr>)))"

text \<open>
  \<^verbatim>\<open>globalRebInit\<close>: the stage, a renewed xaction (neither aborted nor finished), the
  streams, an empty filter and empty Ack shards, the marker, and then the snapshot and the
  generation id for the receive handlers. \<open>None\<close> is a failed assertion. The function has
  one \<^verbatim>\<open>return\<close>, and it returns \<^verbatim>\<open>true\<close>.
\<close>

definition globalRebInit ::
  "env \<Rightarrow> globalRebArgs \<Rightarrow> 'a target_scheme \<Rightarrow> (bool \<times> globalRebArgs \<times> 'a target_scheme) option" where
  "globalRebInit e md s =
     (let s1 = s\<lparr>stage := rebStageInit, xaborted := False, xfinished := False\<rparr> in
      case beginStreams s1 (md_config md) of
        None \<Rightarrow> None
      | Some (cfg1, s2, _) \<Rightarrow>
          let s3 = s2\<lparr>filterGFN := {}, lomacks := replicate (nshards e) \<lparr>mu = False, q = []\<rparr>\<rparr>;
              (ok, s4) = CreateFile e (markerPath e) s3;
              s5 = (if ok then s4 else logev (LogCreateFailed (markerPath e)) s4);
              md1 = md\<lparr>md_config := cfg1, pmarker := (if ok then markerPath e else [])\<rparr>;
              s6 = s5\<lparr>smap := Some (md_smap md), globRebID := md_globRebID md\<rparr>
          in Some (True, md1, s6))"

text \<open>
  The quiescence loop of \<^verbatim>\<open>globalRebFini\<close>:
  \<^verbatim>\<open>for quiescent < maxquiet && !aborted\<close> with \<^verbatim>\<open>maxquiet = 10\<close>. A pass swaps
  \<^verbatim>\<open>laterx\<close> from true to false (the receive handler may have set it since the last pass),
  counts a quiet pass or starts again from 0, and sleeps in \<^verbatim>\<open>abortedAfter\<close>. The loop need
  not end: late objects may keep arriving.
\<close>

partial_function (option) quiesce ::
  "env \<Rightarrow> nat \<Rightarrow> bool \<Rightarrow> 'a target_scheme \<Rightarrow> (bool \<times> 'a target_scheme) option" where
  "quiesce e quiescent abrt s =
     (if quiescent < 10 \<and> \<not> abrt then
        let late = (laterx s \<or> lateAt e (clock s));
            quiescent1 = (if \<not> late then quiescent + 1 else 0);
            s1 = s\<lparr>laterx := False\<rparr>;
            abrt1 = (xaborted s1 \<or> abortedAt e (clock s1))
        in quiesce e quiescent1 abrt1 (s1\<lparr>clock := Suc (clock s1)\<rparr>)
      else Some (abrt, s))"

declare quiesce.simps [code]

text \<open>
  \<^verbatim>\<open>globalRebFini\<close>: the quiescence loop, the removal of the marker when the loop was not
  left through an abort, the end of the streams, the end time of the xaction, the last stage,
  and the token for the serializer.
\<close>

definition globalRebFini :: "env \<Rightarrow> globalRebArgs \<Rightarrow> 'a target_scheme \<Rightarrow> 'a target_scheme option" where
  "globalRebFini e md s =
     (case quiesce e 0 (xaborted s \<or> abortedAt e (clock s)) (s\<lparr>clock := Suc (clock s)\<rparr>) of
        None \<Rightarrow> None
      | Some (abrt, s1) \<Rightarrow>
          let s2 = (if \<not> abrt then
                      (case RemoveFile e (pmarker md) s1 of
                         (ok, s') \<Rightarrow> if ok then s' else logev (LogRemoveFailed (pmarker md)) s')
                    else s1);
              s3 = endStreams s2;
              s4 = s3\<lparr>xfinished := True\<rparr>
          in Some (s4\<lparr>stage := rebStageDone, semaCh := semaCh s4 + 1\<rparr>))"

section \<open>The receive handler for objects: \<^verbatim>\<open>recvObj\<close>\<close>

record objAttrs =
  Size :: int
  Atime :: int
  CksumType :: string
  CksumValue :: string
  Version :: string

record header =
  Bucket :: string
  Objname :: string
  BckIsAIS :: bool
  Opaque :: string
  ObjAttrs :: objAttrs

text \<open>
  The handler runs in a goroutine of the transport, beside the coordinator. What it reads
  is given from outside: the configuration, its own daemon id, the successive loads of the
  snapshot pointer (\<open>smapAt 0\<close> on entry, \<open>smapAt k\<close> in pass \<open>k\<close> of the waiting loop) and
  of the stage (\<open>stageAt 0\<close> before the put, \<open>stageAt 1\<close> before the ack), whether
  \<^verbatim>\<open>lom.Init\<close> fails, what \<^verbatim>\<open>isRebalancing\<close> answers, and whether \<^verbatim>\<open>putObject\<close> and the
  \<^verbatim>\<open>SendV\<close> of the ack fail. What it does is a list of events: sleeps, log lines of the two
  levels it uses, the draining of the reader, the store to \<^verbatim>\<open>laterx\<close>, the put (which reads
  the reader) with its success, the statistics, the ack with its header and destination.
\<close>

record rxEnv =
  rxSelf :: string
  rxConfig :: config
  smapAt :: "nat \<Rightarrow> smapX option"
  stageAt :: "nat \<Rightarrow> nat"
  lomInitErr :: bool
  rebAborted :: bool
  rebRunning :: bool
  putErr :: bool
  ackErr :: bool

datatype rxEvent =
    RxSleep int
  | RxLogWarning
  | RxLogError
  | RxDrain
  | RxLaterx
  | RxPut header bool
  | RxStats int int
  | RxAck header string
  | RxPanic

text \<open>
  The waiting loop \<^verbatim>\<open>for curwt < maxwt\<close>: load the pointer, leave when it is set, else
  sleep and add the sleep to \<^verbatim>\<open>curwt\<close>. The result is the pointer as the loop leaves it and
  \<^verbatim>\<open>curwt\<close>. With a sleep of zero and a pointer that is never set the loop does not end.
\<close>

partial_function (option) wait_smap ::
  "rxEnv \<Rightarrow> int \<Rightarrow> int \<Rightarrow> int \<Rightarrow> nat \<Rightarrow> rxEvent list \<Rightarrow> (smapX option \<times> int \<times> rxEvent list) option" where
  "wait_smap e sleep maxwt curwt k evs =
     (if curwt < maxwt then
        (case smapAt e k of
           Some m \<Rightarrow> Some (Some m, curwt, evs)
         | None \<Rightarrow> wait_smap e sleep maxwt (int64 (curwt + sleep)) (Suc k) (evs @ [RxSleep sleep]))
      else Some (None, curwt, evs))"

declare wait_smap.simps [code]

text \<open>The handler from the lookup of the sender on, with the snapshot in hand.\<close>

definition recv_obj :: "rxEnv \<Rightarrow> header \<Rightarrow> smapX \<Rightarrow> rxEvent list \<Rightarrow> rxEvent list" where
  "recv_obj e hdr m evs =
     (let tsid = Opaque hdr;
          tsi = GetTarget m tsid
      in if lomInitErr e then evs @ [RxLogError]
         else if rebAborted e \<or> \<not> rebRunning e then evs @ [RxDrain]
         else
           let stg = stageAt e 0;
               evs1 = (if stg \<ge> rebStageFin then
                         evs @ [RxLaterx, if stg > rebStageFin then RxLogError else RxLogWarning]
                       else if stg < rebStageTraverse then evs @ [RxLogError]
                       else evs)
           in if putErr e then evs1 @ [RxPut hdr False, RxLogError]
              else
                let evs2 = evs1 @ [RxPut hdr True, RxStats 1 (Size (ObjAttrs hdr))]
                in (case tsi of
                      None \<Rightarrow> evs2
                    | Some dst \<Rightarrow>
                        let stg2 = stageAt e 1
                        in if stg2 < rebStageFinStreams \<and> stg2 \<noteq> rebStageInactive then
                             evs2 @ [RxAck (hdr\<lparr>Opaque := rxSelf e,
                                                ObjAttrs := (ObjAttrs hdr)\<lparr>Size := 0\<rparr>\<rparr>) dst]
                                  @ (if ackErr e then [RxLogError] else [])
                           else evs2))"

text \<open>
  \<^verbatim>\<open>recvObj\<close>. An error of the transport is logged. When the snapshot pointer is nil the
  handler sleeps once, runs the waiting loop up to
  \<^verbatim>\<open>cmn.MinDur(DestRetryTime, SendFile/3)\<close>, and, when \<^verbatim>\<open>curwt >= maxwt\<close> after the
  loop, writes an error line and returns. \<open>None\<close> is a waiting loop that does not end. A nil
  snapshot after the loop with \<^verbatim>\<open>curwt < maxwt\<close> would be dereferenced.
\<close>

definition recvObj :: "rxEnv \<Rightarrow> bool \<Rightarrow> header \<Rightarrow> rxEvent list option" where
  "recvObj e err hdr =
     (if err then Some [RxLogError]
      else
        (case smapAt e 0 of
           Some m \<Rightarrow> Some (recv_obj e hdr m [])
         | None \<Rightarrow>
             let config = rxConfig e;
                 sleep = CplaneOperation config;
                 maxwt = MinDur (DestRetryTime config) (go_div (SendFile config) 3)
             in (case wait_smap e sleep maxwt 0 1 [RxLogWarning, RxSleep sleep] of
                   None \<Rightarrow> None
                 | Some (sm, curwt, evs) \<Rightarrow>
                     if curwt \<ge> maxwt then Some (evs @ [RxLogError])
                     else (case sm of
                             Some m \<Rightarrow> Some (recv_obj e hdr m evs)
                           | None \<Rightarrow> Some (evs @ [RxPanic])))))"

text \<open>
  For the statements about objects that wait for the snapshot: the value of \<^verbatim>\<open>curwt\<close> after
  \<open>j\<close> passes of the waiting loop that found the pointer nil.
\<close>

primrec waited :: "int \<Rightarrow> nat \<Rightarrow> int" where
  "waited sleep 0 = 0"
| "waited sleep (Suc j) = int64 (waited sleep j + sleep)"

section \<open>Sample inputs\<close>

text \<open>
  A target \<open>t1\<close> of a cluster of two, with an Ack table of two shards, an object whose home
  is the second shard, and the surroundings of a run in which nothing fails.
\<close>

definition lomA :: lom where
  "lomA = \<lparr>Uname = ''ais/bck/a'', Hidx = 1, loadErr = False, lexists = True, isCopy = False,
           cksumErr = False, openErr = False\<rparr>"

definition smap5 :: smapX where
  "smap5 = \<lparr>version = 5, Tmap = [(''t1'', ''node1''), (''t2'', ''node2'')]\<rparr>"

definition tgt0 :: target where
  "tgt0 = \<lparr>netd = ''data'', netc = ''control'', smap = Some smap5, streams = None, acks = None,
           lomacks = [\<lparr>mu = False, q = []\<rparr>, \<lparr>mu = False, q = []\<rparr>], filterGFN = {},
           semaCh = 0, laterx = False, globRebID = 3, stage = rebStageTraverse,
           rlocks = (\<lambda>u. 0), xaborted = False, xfinished = False, clock = 0, errCh = [],
           files = {}, trace = []\<rparr>"

definition envOk :: env where
  "envOk = \<lparr>selfID = ''t1'', hrwTarget = (\<lambda>l. Inr ''t2''), headPresent = (\<lambda>l t. False),
            sendvErr = (\<lambda>u. False), abortedAt = (\<lambda>k. False), nverAt = (\<lambda>k. 5),
            lateAt = (\<lambda>k. False), markerPath = ''/etc/ais/.global_rebalancing'', nshards = 2,
            createErr = (\<lambda>p. False), removeErr = (\<lambda>p. False)\<rparr>"

definition cfg0 :: config where
  "cfg0 = \<lparr>Multiplier = 4, Compression = ''never'', DestRetryTime = 120000000000,
           CplaneOperation = 2000000000, SendFile = 300000000000\<rparr>"

text \<open>
  A second object of the same shard that is a copy, the target with both objects pending,
  and surroundings in which an abort of the xaction arrives after the second check.
\<close>

definition lomC :: lom where
  "lomC = \<lparr>Uname = ''ais/bck/c'', Hidx = 1, loadErr = False, lexists = True, isCopy = True,
           cksumErr = False, openErr = False\<rparr>"

definition tgtAck :: target where
  "tgtAck = tgt0\<lparr>lomacks := [\<lparr>mu = False, q = []\<rparr>,
                              \<lparr>mu = False, q = [(''ais/bck/c'', lomC), (''ais/bck/a'', lomA)]\<rparr>],
                  stage := rebStageWaitAck\<rparr>"


text \<open>
  An object of the first shard that fails to load, pending together with the copy in the
  second shard, and surroundings in which the xaction is aborted from the start.
\<close>

definition lomX :: lom where
  "lomX = \<lparr>Uname = ''ais/bck/x'', Hidx = 0, loadErr = True, lexists = False, isCopy = False,
           cksumErr = False, openErr = False\<rparr>"

definition tgtTwo :: target where
  "tgtTwo = tgt0\<lparr>lomacks := [\<lparr>mu = False, q = [(''ais/bck/x'', lomX)]\<rparr>,
                              \<lparr>mu = False, q = [(''ais/bck/c'', lomC)]\<rparr>],
                  stage := rebStageWaitAck\<rparr>"

definition envAborted :: env where
  "envAborted = envOk\<lparr>abortedAt := (\<lambda>k. True)\<rparr>"

text \<open>The arguments of a run whose marker exists, and the target at the start of Fini.\<close>

definition mdRun :: globalRebArgs where
  "mdRun = \<lparr>md_smap = smap5, md_config = cfg0, pmarker = ''/etc/ais/.global_rebalancing'',
            md_globRebID = 4\<rparr>"

definition tgtFin :: target where
  "tgtFin = tgt0\<lparr>stage := rebStageFin, files := {''/etc/ais/.global_rebalancing''}\<rparr>"

text \<open>
  A jogger with synchronous sends on the snapshot of version 5, and two directory entries:
  the object that fails to load, and the object that can be sent.
\<close>

definition jog1 :: jogger where
  "jog1 = \<lparr>jver = 5, jsema = None\<rparr>"

definition deX :: dirEntry where
  "deX = \<lparr>deIsDir = False, deLom = Some lomX\<rparr>"

definition deA :: dirEntry where
  "deA = \<lparr>deIsDir = False, deLom = Some lomA\<rparr>"

text \<open>
  The receive handler's surroundings: timeouts of 10 s (retry), 2 s (control plane) and 60 s
  (send file), a rebalance that is running, the stage of the traversal, a snapshot pointer
  that is never set or is there from the start, and a header from target \<open>t2\<close> or from a
  target \<open>t9\<close> that the snapshot does not have.
\<close>

definition rxNever :: rxEnv where
  "rxNever = \<lparr>rxSelf = ''t1'',
              rxConfig = \<lparr>Multiplier = 4, Compression = ''never'', DestRetryTime = 10000000000,
                          CplaneOperation = 2000000000, SendFile = 60000000000\<rparr>,
              smapAt = (\<lambda>k. None), stageAt = (\<lambda>k. rebStageTraverse), lomInitErr = False,
              rebAborted = False, rebRunning = True, putErr = False, ackErr = False\<rparr>"


definition hdrA :: header where
  "hdrA = \<lparr>Bucket = ''bck'', Objname = ''a'', BckIsAIS = True, Opaque = ''t2'',
           ObjAttrs = \<lparr>Size = 1024, Atime = 1573000000000000000, CksumType = ''xxhash'',
                       CksumValue = ''ad97df912d23103f'', Version = ''1''\<rparr>\<rparr>"

text \<open>
  The target with the object \<open>a\<close> pending in its shard, alone, and surroundings in which the
  stream refuses every send.
\<close>

definition tgtOne :: target where
  "tgtOne = tgt0\<lparr>lomacks := [\<lparr>mu = False, q = []\<rparr>, \<lparr>mu = False, q = [(''ais/bck/a'', lomA)]\<rparr>],
                  stage := rebStageWaitAck\<rparr>"


text \<open>
  Surroundings in which the removal of a file fails, and surroundings in which one late
  object arrives during the third pass of the quiescence loop.
\<close>

definition envKeep :: env where
  "envKeep = envOk\<lparr>removeErr := (\<lambda>p. True)\<rparr>"

definition envLate :: env where
  "envLate = envOk\<lparr>lateAt := (\<lambda>k. k = 3)\<rparr>"


section \<open>Theorems\<close>

lemmas rebStage_defs =
  rebStageInactive_def rebStageInit_def rebStageTraverse_def rebStageECNameSpace_def
  rebStageWaitAck_def rebStageFin_def rebStageFinStreams_def rebStageDone_def

subsection \<open>The stream multiplier\<close>

lemma word8_less_8: "(8 < (w::8 word)) = (8 < uint w)"
  by (simp add: word_less_def)

lemma word8_less_1: "(1 < (w::8 word)) = (1 < uint w)"
  by (simp add: word_less_def)

lemma uint8_le: "uint (w::8 word) \<le> 255"
  using uint_lt2p [of w] by simp

lemma uint8_pos: "w \<noteq> 0 \<Longrightarrow> 1 \<le> uint (w::8 word)"
  using uint_ge_0 [of w] uint_0_iff [of w] by linarith

text \<open>
  C9, as stated, fails: a configured multiplier of 9 is the multiplier of the object stream
  bundle and the capacity of the jogger's semaphore; the code only writes an error line.
\<close>

theorem beginStreams_multiplier_counterexample:
  "beginStreams (tgt0\<lparr>stage := rebStageInit\<rparr>) (cfg0\<lparr>Multiplier := 9\<rparr>) =
     Some (cfg0\<lparr>Multiplier := 9\<rparr>,
           tgt0\<lparr>stage := rebStageInit,
                streams := Some \<lparr>Network = ''data'', Trname = ''rebalance'',
                                ExtraCompression = Some ''never'', SBMultiplier = 9,
                                ManualResync = True\<rparr>,
                acks := Some \<lparr>Network = ''control'', Trname = ''remwack'',
                             ExtraCompression = None, SBMultiplier = 0, ManualResync = True\<rparr>,
                laterx := False\<rparr>,
           True)
   \<and> jogger_sema (cfg0\<lparr>Multiplier := 9\<rparr>) = Some 9"
  by (simp add: beginStreams_def jogger_sema_def tgt0_def cfg0_def rebStage_defs
      rebalanceStreamName_def rebalanceAcksName_def)

text \<open>
  C9, amended. The multiplier of the object stream bundle is the configured one with zero
  raised to 1: it is at least 1, and it is above 8 exactly when the configured value is, in
  which case an error line is written and the value is used as it is. The jogger's
  semaphore, when there is one, has the same capacity.
\<close>

theorem beginStreams_multiplier:
  "beginStreams reb cfg = Some (cfg', reb', logged) \<Longrightarrow>
     (\<exists>sb. streams reb' = Some sb \<and>
        SBMultiplier sb = (if Multiplier cfg = 0 then 1 else uint (Multiplier cfg)) \<and>
        1 \<le> SBMultiplier sb \<and> SBMultiplier sb \<le> 255 \<and>
        (8 < SBMultiplier sb \<longleftrightarrow> 8 < Multiplier cfg) \<and>
        (logged \<longleftrightarrow> 8 < Multiplier cfg) \<and>
        (\<forall>c. jogger_sema cfg' = Some c \<longrightarrow> int c = SBMultiplier sb))"
proof -
  assume a: "beginStreams reb cfg = Some (cfg', reb', logged)"
  show ?thesis
  proof (cases "Multiplier cfg = 0")
    case True
    with a show ?thesis
      by (auto simp: beginStreams_def Let_def jogger_sema_def split: if_splits)
  next
    case False
    with a uint8_pos [of "Multiplier cfg"] uint8_le [of "Multiplier cfg"] show ?thesis
      by (auto simp: beginStreams_def Let_def jogger_sema_def word8_less_8 word8_less_1
          split: if_splits)
  qed
qed

theorem beginStreams_multiplier_witness:
  "\<exists>sb. streams (tgt0\<lparr>stage := rebStageInit,
                streams := Some \<lparr>Network = ''data'', Trname = ''rebalance'',
                                ExtraCompression = Some ''never'', SBMultiplier = 1,
                                ManualResync = True\<rparr>,
                acks := Some \<lparr>Network = ''control'', Trname = ''remwack'',
                             ExtraCompression = None, SBMultiplier = 0, ManualResync = True\<rparr>,
                laterx := False\<rparr>) = Some sb \<and> SBMultiplier sb = 1"
proof -
  have run: "beginStreams (tgt0\<lparr>stage := rebStageInit\<rparr>) (cfg0\<lparr>Multiplier := 0\<rparr>) =
     Some (cfg0\<lparr>Multiplier := 1\<rparr>,
           tgt0\<lparr>stage := rebStageInit,
                streams := Some \<lparr>Network = ''data'', Trname = ''rebalance'',
                                ExtraCompression = Some ''never'', SBMultiplier = 1,
                                ManualResync = True\<rparr>,
                acks := Some \<lparr>Network = ''control'', Trname = ''remwack'',
                             ExtraCompression = None, SBMultiplier = 0, ManualResync = True\<rparr>,
                laterx := False\<rparr>,
           False)"
    by (simp add: beginStreams_def tgt0_def cfg0_def rebStage_defs
        rebalanceStreamName_def rebalanceAcksName_def)
  show ?thesis
    using beginStreams_multiplier [OF run] by auto
qed

subsection \<open>The WaitAck deadline\<close>

lemma int64_id: "is_int64 x \<Longrightarrow> int64 x = x"
  by (simp add: int64_def is_int64_def)

text \<open>
  C7 as stated fails where the 64-bit arithmetic of durations wraps: with a retry time of
  \<open>2 ^ 62\<close> nanoseconds and fewer than ten targets the minimum of the claim is \<open>2 ^ 62\<close>, and the
  code, whose doubling wraps, computes \<open>- 2 ^ 63\<close>.
\<close>

theorem waitAck_maxwt_min_counterexample:
  "waitAck_maxwt (cfg0\<lparr>DestRetryTime := 2 ^ 62\<rparr>) smap5 = - (2 ^ 63) \<and>
   min (2 * DestRetryTime (cfg0\<lparr>DestRetryTime := 2 ^ 62\<rparr>))
       (DestRetryTime (cfg0\<lparr>DestRetryTime := 2 ^ 62\<rparr>) + int (CountTargets smap5 div 10) * Minute)
     = 2 ^ 62"
  by (simp add: waitAck_maxwt_def cfg0_def smap5_def CountTargets_def MinDur_def int64_def Minute_def)

text \<open>
  C7, amended. Whenever none of the three 64-bit operations of the computation overflows (the
  minutes for the targets, their sum with the retry time, and twice the retry time), the
  deadline of WaitAck is the smaller of twice the retry time and the retry time plus one minute
  for every ten targets, the count divided by 10 rounded down.
\<close>

theorem waitAck_maxwt_min:
  assumes "is_int64 (int (CountTargets m div 10) * Minute)"
    and "is_int64 (DestRetryTime cfg + int (CountTargets m div 10) * Minute)"
    and "is_int64 (2 * DestRetryTime cfg)"
  shows "waitAck_maxwt cfg m =
           min (2 * DestRetryTime cfg) (DestRetryTime cfg + int (CountTargets m div 10) * Minute)"
  using assms
  by (simp add: waitAck_maxwt_def Let_def MinDur_def min_def mult.commute int64_id)

theorem waitAck_maxwt_min_witness:
  "waitAck_maxwt cfg0 \<lparr>version = 5, Tmap = map (\<lambda>i. (replicate i CHR ''t'', ''node'')) [1..<16]\<rparr>
     = 180000000000"
  using waitAck_maxwt_min [of "\<lparr>version = 5, Tmap = map (\<lambda>i. (replicate i CHR ''t'', ''node'')) [1..<16]\<rparr>" cfg0]
  by (simp add: cfg0_def CountTargets_def is_int64_def Minute_def)

subsection \<open>The jogger's send\<close>




subsection \<open>Retransmit: what an abort does to the count\<close>

lemmas tgt_ops = lom_lock_def lom_unlock_def ack_insert_def ack_delete_def logev_def mu_set_def rerr_def


lemma send_held:
  "send e l tsi s = Returns (err, s') \<Longrightarrow> Hidx l < length (lomacks s) \<Longrightarrow> mu (lomacks s ! Hidx l) \<Longrightarrow>
     lomacks s' = lomacks s \<and> trace s' = trace s @ [LomLock (Uname l), LomUnlock (Uname l)]"
  by (auto simp: send_def Let_def tgt_ops split: if_splits)

lemma aborted_frame:
  "aborted e ver s = (ab, s') \<Longrightarrow>
     clock s' = Suc (clock s) \<and> xaborted s' = xaborted s \<and> lomacks s' = lomacks s \<and> trace s' = trace s
     \<and> ab = abort_seen e ver s (clock s)"
  by (auto simp: aborted_def abort_seen_def)










text \<open>
  With no abort, the same pass does not return: after the copy it comes to an object that
  has to be sent again, and \<^verbatim>\<open>send\<close> locks the mutex of the shard, which \<^verbatim>\<open>retransmit\<close>
  holds while it ranges over the shard.
\<close>

lemma retransmit_run_blocks: "retransmit envOk 5 tgtAck = Blocks"
  by (simp add: retransmit_def aborted_def envOk_def tgtAck_def tgt0_def lomC_def lomA_def
      send_def Let_def tgt_ops upt_conv_Cons fun_upd_idem_iff)


subsection \<open>Retransmit: the resend of a pending object\<close>

text \<open>
  \<^verbatim>\<open>retransmit\<close> holds the mutex of a shard while it ranges over the shard's entries, and
  \<^verbatim>\<open>send\<close> locks the mutex of the shard of the object's home-hash index before it files
  the object and calls the stream. In a table that \<^verbatim>\<open>send\<close> has filled these are the same
  mutex, so a call of \<^verbatim>\<open>send\<close> from \<^verbatim>\<open>retransmit\<close> comes back only where it leaves
  before the mutex. The lemmas below show that a pass of \<^verbatim>\<open>retransmit\<close> that returns has
  asked the stream to send nothing.
\<close>

lemma filter_sendv_ops:
  "filter is_sendv (trace (ack_delete i u s)) = filter is_sendv (trace s)"
  "filter is_sendv (trace (mu_set i b s)) = filter is_sendv (trace s)"
  "\<not> is_sendv ev \<Longrightarrow> filter is_sendv (trace (logev ev s)) = filter is_sendv (trace s)"
  by (simp_all add: tgt_ops)

lemma shard_held: "mu (lomacks (ack_delete i u s) ! i) = mu (lomacks s ! i)"
  by (cases "i < length (lomacks s)") (simp_all add: ack_delete_def list_update_beyond)

lemma shard_ops:
  "length (lomacks (ack_delete i u s)) = length (lomacks s)"
  "j \<noteq> i \<Longrightarrow> lomacks (ack_delete i u s) ! j = lomacks s ! j"
  "lomacks (logev ev s) = lomacks s"
  "length (lomacks (mu_set i b s)) = length (lomacks s)"
  "j \<noteq> i \<Longrightarrow> lomacks (mu_set i b s) ! j = lomacks s ! j"
  by (simp_all add: tgt_ops)

lemma retransmit_q_sends_nothing:
  "retransmit_q e ver i es cnt s = Returns (left, c, s') \<Longrightarrow>
   i < length (lomacks s) \<Longrightarrow> mu (lomacks s ! i) \<Longrightarrow> \<forall>(u, l) \<in> set es. Hidx l = i \<Longrightarrow>
     filter is_sendv (trace s') = filter is_sendv (trace s) \<and>
     length (lomacks s') = length (lomacks s) \<and>
     (\<forall>j. j \<noteq> i \<longrightarrow> lomacks s' ! j = lomacks s ! j)"
proof (induction es arbitrary: cnt s)
  case Nil
  then show ?case by auto
next
  case (Cons a es)
  obtain uname l where a: "a = (uname, l)" by (cases a)
  from Cons.prems(4) a have hl: "Hidx l = i" and rest: "\<forall>(u, l) \<in> set es. Hidx l = i"
    by auto
  show ?case
  proof (cases "loadErr l \<or> \<not> lexists l \<or> head_ok e l")
    case True
    have "\<exists>s0. retransmit_q e ver i es cnt s0 = Returns (left, c, s') \<and>
            filter is_sendv (trace s0) = filter is_sendv (trace s) \<and>
            length (lomacks s0) = length (lomacks s) \<and>
            mu (lomacks s0 ! i) = mu (lomacks s ! i) \<and>
            (\<forall>j. j \<noteq> i \<longrightarrow> lomacks s0 ! j = lomacks s ! j)"
    proof (cases "loadErr l")
      case True
      with Cons.prems(1) a
      have "retransmit_q e ver i es cnt (ack_delete i uname (logev (LogFailedLoading uname) s))
              = Returns (left, c, s')"
        by simp
      then show ?thesis
        by (intro exI [of _ "ack_delete i uname (logev (LogFailedLoading uname) s)"])
           (simp add: shard_ops shard_held filter_sendv_ops)
    next
      case ld: False
      show ?thesis
      proof (cases "lexists l")
        case False
        with ld Cons.prems(1) a
        have "retransmit_q e ver i es cnt (ack_delete i uname (logev (LogDoesNotExist uname) s))
                = Returns (left, c, s')"
          by simp
        then show ?thesis
          by (intro exI [of _ "ack_delete i uname (logev (LogDoesNotExist uname) s)"])
             (simp add: shard_ops shard_held filter_sendv_ops)
      next
        case ex: True
        with ld True Cons.prems(1) a
        have "retransmit_q e ver i es cnt (ack_delete i uname s) = Returns (left, c, s')"
          by (auto simp: head_ok_def split: sum.splits)
        then show ?thesis
          by (intro exI [of _ "ack_delete i uname s"]) (simp add: shard_ops shard_held filter_sendv_ops)
      qed
    qed
    then obtain s0 where rec: "retransmit_q e ver i es cnt s0 = Returns (left, c, s')"
      and f0: "filter is_sendv (trace s0) = filter is_sendv (trace s)"
        "length (lomacks s0) = length (lomacks s)"
        "mu (lomacks s0 ! i) = mu (lomacks s ! i)"
        "\<forall>j. j \<noteq> i \<longrightarrow> lomacks s0 ! j = lomacks s ! j"
      by (elim exE conjE) (rule that, assumption+)
    have "filter is_sendv (trace s') = filter is_sendv (trace s0) \<and>
          length (lomacks s') = length (lomacks s0) \<and>
          (\<forall>j. j \<noteq> i \<longrightarrow> lomacks s' ! j = lomacks s0 ! j)"
      using Cons.prems(2,3) f0 by (intro Cons.IH [OF rec _ _ rest]) simp_all
    with f0 show ?thesis by simp
  next
    case False
    then obtain tsi where h: "hrwTarget e l = Inr tsi" "\<not> headPresent e l tsi"
      using Cons.prems(1) a by (auto simp: head_ok_def split: sum.splits)
    from Cons.prems(1) a False h obtain err s1 where
      snd: "send e l tsi s = Returns (err, s1)"
      by (auto split: res.splits)
    have held: "lomacks s1 = lomacks s" "trace s1 = trace s @ [LomLock (Uname l), LomUnlock (Uname l)]"
      using send_held [OF snd] hl Cons.prems(2,3) by simp_all
    define s2 where "s2 = logev (if err = None then LogResending uname else LogFailedResending uname) s1"
    obtain ab s3 where ab: "aborted e ver s2 = (ab, s3)" by (cases "aborted e ver s2")
    have fr3: "lomacks s3 = lomacks s" "filter is_sendv (trace s3) = filter is_sendv (trace s)"
      using aborted_frame [OF ab] held by (simp_all add: s2_def logev_def)
    show ?thesis
    proof (cases ab)
      case True
      with Cons.prems(1) a False h snd ab have "s' = mu_set i False s3"
        by (auto simp: s2_def Let_def)
      with fr3 show ?thesis by (simp add: shard_ops shard_held filter_sendv_ops)
    next
      case nab: False
      with Cons.prems(1) a False h snd ab have
        rec: "retransmit_q e ver i es (if err = None then Suc cnt else cnt) s3 = Returns (left, c, s')"
        by (auto simp: s2_def Let_def)
      have "filter is_sendv (trace s') = filter is_sendv (trace s3) \<and>
            length (lomacks s') = length (lomacks s3) \<and>
            (\<forall>j. j \<noteq> i \<longrightarrow> lomacks s' ! j = lomacks s3 ! j)"
        using Cons.prems(2,3) fr3 by (intro Cons.IH [OF rec _ _ rest]) simp_all
      with fr3 show ?thesis by simp
    qed
  qed
qed

lemma retransmit_shards_sends_nothing:
  "retransmit_shards e ver rest cnt s = Returns (c, s') \<Longrightarrow> distinct rest \<Longrightarrow>
   \<forall>i \<in> set rest. i < length (lomacks s) \<and> (\<forall>(u, l) \<in> set (q (lomacks s ! i)). Hidx l = i) \<Longrightarrow>
     filter is_sendv (trace s') = filter is_sendv (trace s)"
proof (induction rest arbitrary: cnt s)
  case Nil
  then show ?case by auto
next
  case (Cons i rest)
  from Cons.prems(1) obtain left c1 s1 where
    ql: "retransmit_q e ver i (q (lomacks s ! i)) cnt (mu_set i True s) = Returns (left, c1, s1)"
    by (auto split: if_splits res.splits)
  from Cons.prems(3) have il: "i < length (lomacks s)"
    and iw: "\<forall>(u, l) \<in> set (q (lomacks s ! i)). Hidx l = i"
    by auto
  have q1: "filter is_sendv (trace s1) = filter is_sendv (trace s)"
    "length (lomacks s1) = length (lomacks s)"
    "\<And>j. j \<noteq> i \<Longrightarrow> lomacks s1 ! j = lomacks s ! j"
    using retransmit_q_sends_nothing [OF ql _ _ iw] il
    by (simp_all add: mu_set_def)
  show ?case
  proof (cases left)
    case True
    with Cons.prems(1) ql have "s' = s1"
      by (auto split: if_splits)
    with q1 show ?thesis by simp
  next
    case nl: False
    obtain ab s2 where ab: "aborted e ver (mu_set i False s1) = (ab, s2)"
      by (cases "aborted e ver (mu_set i False s1)")
    have fr: "filter is_sendv (trace s2) = filter is_sendv (trace s)"
      "length (lomacks s2) = length (lomacks s)"
      "\<And>j. j \<noteq> i \<Longrightarrow> lomacks s2 ! j = lomacks s ! j"
      using aborted_frame [OF ab] q1 by (simp_all add: shard_ops filter_sendv_ops)
    show ?thesis
    proof (cases ab)
      case True
      with Cons.prems(1) ql nl ab have "s' = s2"
        by (auto split: if_splits)
      with fr show ?thesis by simp
    next
      case nab: False
      with Cons.prems(1) ql nl ab have rec: "retransmit_shards e ver rest c1 s2 = Returns (c, s')"
        by (auto split: if_splits)
      have d: "distinct rest" "i \<notin> set rest"
        using Cons.prems(2) by simp_all
      have w: "\<forall>j \<in> set rest. j < length (lomacks s2) \<and> (\<forall>(u, l) \<in> set (q (lomacks s2 ! j)). Hidx l = j)"
      proof
        fix j assume j: "j \<in> set rest"
        with d have "j \<noteq> i" by auto
        then have "lomacks s2 ! j = lomacks s ! j" by (rule fr(3))
        with Cons.prems(3) j fr(2)
        show "j < length (lomacks s2) \<and> (\<forall>(u, l) \<in> set (q (lomacks s2 ! j)). Hidx l = j)"
          by simp
      qed
      from Cons.IH [OF rec d(1) w] fr(1) show ?thesis by simp
    qed
  qed
qed

lemma retransmit_sends_nothing:
  assumes wf: "acks_wf s"
    and ret: "retransmit e ver s = Returns (cnt, s')"
  shows "filter is_sendv (trace s') = filter is_sendv (trace s)"
proof -
  obtain ab s1 where ab: "aborted e ver s = (ab, s1)" by (cases "aborted e ver s")
  note fr = aborted_frame [OF ab]
  show ?thesis
  proof (cases ab)
    case True
    with ret ab fr show ?thesis by (simp add: retransmit_def)
  next
    case False
    with ret ab have rec: "retransmit_shards e ver [0..<length (lomacks s1)] 0 s1 = Returns (cnt, s')"
      by (simp add: retransmit_def)
    have "\<forall>i \<in> set [0..<length (lomacks s1)].
            i < length (lomacks s1) \<and> (\<forall>(u, l) \<in> set (q (lomacks s1 ! i)). Hidx l = i)"
      using wf fr by (auto simp: acks_wf_def)
    from retransmit_shards_sends_nothing [OF rec _ this] fr show ?thesis by simp
  qed
qed

text \<open>
  A pass that returns can still count: a pending object that has become a copy leaves
  \<^verbatim>\<open>send\<close> with \<^verbatim>\<open>err == nil\<close>, so the line "resending" is written and the counter
  incremented while nothing is sent and the entry stays.
\<close>

lemma retransmit_counts_copy:
  "retransmit envOk 5 tgtTwo =
     Returns (1, tgtTwo\<lparr>lomacks := [\<lparr>mu = False, q = []\<rparr>, \<lparr>mu = False, q = [(''ais/bck/c'', lomC)]\<rparr>],
                        clock := 4,
                        trace := [LogFailedLoading ''ais/bck/x'', AckDelete 0 ''ais/bck/x'',
                                  LomLock ''ais/bck/c'', LomUnlock ''ais/bck/c'',
                                  LogResending ''ais/bck/c'']\<rparr>)"
  by (simp add: retransmit_def aborted_def send_def Let_def tgt_ops envOk_def tgtTwo_def tgt0_def
      lomX_def lomC_def upt_conv_Cons fun_upd_idem_iff)

text \<open>
  C2. With one object pending that loads, exists and is not found at its home by the HEAD
  probe, in a table filled by \<^verbatim>\<open>send\<close> and with no abort, \<^verbatim>\<open>retransmit\<close> does not
  resend the object and returns no count: it blocks for ever in \<^verbatim>\<open>send\<close>, on the shard
  mutex that it holds itself.
\<close>

theorem retransmit_resend_blocks:
  "retransmit envOk 5 tgtOne = Blocks"
  by (simp add: retransmit_def aborted_def send_def Let_def tgt_ops envOk_def tgtOne_def tgt0_def
      lomA_def upt_conv_Cons)

lemma tgtOne_wf: "acks_wf tgtOne"
  by (simp add: acks_wf_def tgtOne_def tgt0_def lomA_def less_Suc_eq)

subsection \<open>The serializer\<close>

text \<open>
  C1, as stated, fails: with the published generation id equal to \<open>g\<close> and a membership
  version newer than the snapshot's, \<^verbatim>\<open>serialize\<close> returns \<^verbatim>\<open>newerSmap\<close> and not
  \<^verbatim>\<open>alreadyRunning\<close>; the check of the version comes first.
\<close>

theorem serialize_counterexample:
  "serialize 5 3 [\<lparr>vsemaCh = 1, vnver = 6, vglobRebID = 3, ventry = None\<rparr>] =
     Some (Returns (True, False, \<lparr>vsemaCh = 1, vnver = 6, vglobRebID = 3, ventry = None\<rparr>, []))"
  by (simp add: serialize_def)

text \<open>
  C1, amended. When the version that the owner holds is newer than the snapshot's,
  \<^verbatim>\<open>serialize\<close> returns \<^verbatim>\<open>newerSmap\<close> alone; when it is not and the generation id
  published last is \<open>g\<close>, it returns \<^verbatim>\<open>alreadyRunning\<close> alone. Both happen in the first
  pass of the loop, whatever comes after; the token of the semaphore, if it was taken, is
  put back (the view is the one before the call), no xaction is asked to abort, and the
  precheck admits no run.
\<close>

theorem serialize_first_pass:
  "(ver < vnver w \<longrightarrow> serialize ver g (w # ws) = Some (Returns (True, False, w, []))) \<and>
   (\<not> ver < vnver w \<and> vglobRebID w = g \<longrightarrow>
      serialize ver g (w # ws) = Some (Returns (False, True, w, []))) \<and>
   (ver < vnver w \<or> vglobRebID w = g \<longrightarrow> \<not> admitted (serialize ver g (w # ws)))"
  by (auto simp: serialize_def Let_def admitted_def)

theorem serialize_first_pass_witness:
  "serialize 5 3 [\<lparr>vsemaCh = 1, vnver = 5, vglobRebID = 3, ventry = None\<rparr>] =
     Some (Returns (False, True, \<lparr>vsemaCh = 1, vnver = 5, vglobRebID = 3, ventry = None\<rparr>, [])) \<and>
   serialize 5 3 [\<lparr>vsemaCh = 0, vnver = 6, vglobRebID = 2, ventry = None\<rparr>] =
     Some (Returns (True, False, \<lparr>vsemaCh = 0, vnver = 6, vglobRebID = 2, ventry = None\<rparr>, [])) \<and>
   \<not> admitted (serialize 5 3 [\<lparr>vsemaCh = 1, vnver = 5, vglobRebID = 3, ventry = None\<rparr>])"
  using serialize_first_pass [of 5 "\<lparr>vsemaCh = 1, vnver = 5, vglobRebID = 3, ventry = None\<rparr>" 3 "[]"]
    serialize_first_pass [of 5 "\<lparr>vsemaCh = 0, vnver = 6, vglobRebID = 2, ventry = None\<rparr>" 3 "[]"]
  by (simp add: admitted_def)

subsection \<open>The in-progress marker\<close>

lemma quiesce_frame_pair:
  assumes "quiesce e n a s = Some y"
  shows "files (snd y) = files s \<and> trace (snd y) = trace s \<and> xaborted (snd y) = xaborted s \<and>
     stage (snd y) = stage s \<and> streams (snd y) = streams s \<and> semaCh (snd y) = semaCh s \<and>
     clock s \<le> clock (snd y) \<and>
     (fst y \<longleftrightarrow> a \<or> (\<exists>k. clock s \<le> k \<and> k < clock (snd y) \<and> (xaborted s \<or> abortedAt e k)))"
  using assms
proof (induction e n a s y rule: quiesce.raw_induct [rotated 1, consumes 1, case_names step])
  case (step qf e n a s y)
  note 1 = step
  show ?case
  proof (cases "n < 10 \<and> \<not> a")
    case False
    with 1(2) show ?thesis by auto
  next
    case True
    define n1 where "n1 = (if \<not> (laterx s \<or> lateAt e (clock s)) then n + 1 else 0)"
    define a1 where "a1 = (xaborted s \<or> abortedAt e (clock s))"
    define s0 where "s0 = s\<lparr>laterx := False, clock := Suc (clock s)\<rparr>"
    from 1(2) True have rec: "qf e n1 a1 s0 = Some y"
      by (simp add: Let_def n1_def a1_def s0_def)
    from 1(1) [OF rec] have ih:
      "files (snd y) = files s" "trace (snd y) = trace s" "xaborted (snd y) = xaborted s"
      "stage (snd y) = stage s" "streams (snd y) = streams s" "semaCh (snd y) = semaCh s"
      "Suc (clock s) \<le> clock (snd y)"
      "fst y \<longleftrightarrow> a1 \<or> (\<exists>k. Suc (clock s) \<le> k \<and> k < clock (snd y) \<and> (xaborted s \<or> abortedAt e k))"
      by (simp_all add: s0_def)
    have "fst y \<longleftrightarrow> (\<exists>k. clock s \<le> k \<and> k < clock (snd y) \<and> (xaborted s \<or> abortedAt e k))"
    proof
      assume "fst y"
      with ih(8) consider "a1" | k where "Suc (clock s) \<le> k" "k < clock (snd y)" "xaborted s \<or> abortedAt e k"
        by blast
      then show "\<exists>k. clock s \<le> k \<and> k < clock (snd y) \<and> (xaborted s \<or> abortedAt e k)"
      proof cases
        case 1
        with ih(7) show ?thesis by (intro exI [of _ "clock s"]) (simp add: a1_def)
      next
        case 2
        then show ?thesis by (intro exI [of _ k]) simp
      qed
    next
      assume "\<exists>k. clock s \<le> k \<and> k < clock (snd y) \<and> (xaborted s \<or> abortedAt e k)"
      then obtain k where k: "clock s \<le> k" "k < clock (snd y)" "xaborted s \<or> abortedAt e k" by blast
      show "fst y"
      proof (cases "k = clock s")
        case True
        with k have a1 by (simp add: a1_def)
        with ih(8) show ?thesis by simp
      next
        case False
        with k have "Suc (clock s) \<le> k" by simp
        with k ih(8) show ?thesis by blast
      qed
    qed
    with ih True show ?thesis by simp
  qed
qed

lemma quiesce_aborted: "quiesce e n True s = Some (True, s)"
  by (simp add: quiesce.simps)

lemma globalRebInit_marker:
  "\<exists>md' s'. globalRebInit e md s = Some (True, md', s') \<and>
     trace s' = trace s @ FileCreate (markerPath e) #
                  (if createErr e (markerPath e) then [LogCreateFailed (markerPath e)] else []) \<and>
     files s' = (if createErr e (markerPath e) then files s else insert (markerPath e) (files s)) \<and>
     pmarker md' = (if createErr e (markerPath e) then [] else markerPath e)"
  by (simp add: globalRebInit_def beginStreams_def Let_def CreateFile_def logev_def)

lemma endStreams_frame:
  "files (endStreams s) = files s \<and> trace (endStreams s) = trace s \<and> clock (endStreams s) = clock s"
  by (simp add: endStreams_def)

lemma globalRebFini_marker:
  assumes "globalRebFini e md s = Some s'"
  shows "if \<exists>k. clock s \<le> k \<and> k < clock s' \<and> (xaborted s \<or> abortedAt e k)
         then files s' = files s \<and> trace s' = trace s
         else trace s' = trace s @ FileRemove (pmarker md) #
                           (if removeErr e (pmarker md) then [LogRemoveFailed (pmarker md)] else []) \<and>
              files s' = (if removeErr e (pmarker md) then files s else files s - {pmarker md})"
proof -
  define a0 where "a0 = (xaborted s \<or> abortedAt e (clock s))"
  from assms obtain ab s1 where
    qs: "quiesce e 0 a0 (s\<lparr>clock := Suc (clock s)\<rparr>) = Some (ab, s1)"
    by (auto simp: globalRebFini_def a0_def split: option.splits)
  from quiesce_frame_pair [OF qs] have fr:
    "files s1 = files s" "trace s1 = trace s" "Suc (clock s) \<le> clock s1"
    "ab \<longleftrightarrow> a0 \<or> (\<exists>k. Suc (clock s) \<le> k \<and> k < clock s1 \<and> (xaborted s \<or> abortedAt e k))"
    by simp_all
  define rm where "rm = (case RemoveFile e (pmarker md) s1 of
                         (ok, t) \<Rightarrow> if ok then t else logev (LogRemoveFailed (pmarker md)) t)"
  have s': "s' = (endStreams (if \<not> ab then rm else s1))
                   \<lparr>xfinished := True, stage := rebStageDone,
                    semaCh := semaCh (endStreams (if \<not> ab then rm else s1)) + 1\<rparr>"
    using assms qs by (cases ab) (auto simp: globalRebFini_def a0_def Let_def rm_def)
  have rm: "clock rm = clock s1"
    "trace rm = trace s1 @ FileRemove (pmarker md) #
                  (if removeErr e (pmarker md) then [LogRemoveFailed (pmarker md)] else [])"
    "files rm = (if removeErr e (pmarker md) then files s1 else files s1 - {pmarker md})"
    by (simp_all add: rm_def RemoveFile_def logev_def)
  have ck: "clock s' = clock s1"
    using s' rm(1) by (simp add: endStreams_frame)
  have ab: "ab \<longleftrightarrow> (\<exists>k. clock s \<le> k \<and> k < clock s' \<and> (xaborted s \<or> abortedAt e k))"
  proof
    assume ab
    with fr(4) consider a0 | k where "Suc (clock s) \<le> k" "k < clock s1" "xaborted s \<or> abortedAt e k"
      by blast
    then show "\<exists>k. clock s \<le> k \<and> k < clock s' \<and> (xaborted s \<or> abortedAt e k)"
    proof cases
      case 1
      with fr(3) ck show ?thesis by (intro exI [of _ "clock s"]) (auto simp: a0_def)
    next
      case 2
      with ck show ?thesis by (intro exI [of _ k]) simp
    qed
  next
    assume "\<exists>k. clock s \<le> k \<and> k < clock s' \<and> (xaborted s \<or> abortedAt e k)"
    then obtain k where k: "clock s \<le> k" "k < clock s'" "xaborted s \<or> abortedAt e k" by blast
    show ab
    proof (cases "k = clock s")
      case True
      with k have a0 by (auto simp: a0_def)
      with fr(4) show ?thesis by simp
    next
      case False
      with k have "Suc (clock s) \<le> k" by simp
      with k ck fr(4) show ?thesis by auto
    qed
  qed
  show ?thesis
  proof (cases ab)
    case True
    with s' fr(1,2) have "files s' = files s \<and> trace s' = trace s"
      by (simp add: endStreams_frame)
    with True ab show ?thesis by simp
  next
    case False
    with s' fr(1,2) rm have
      "trace s' = trace s @ FileRemove (pmarker md) #
                           (if removeErr e (pmarker md) then [LogRemoveFailed (pmarker md)] else []) \<and>
       files s' = (if removeErr e (pmarker md) then files s else files s - {pmarker md})"
      by (simp add: endStreams_frame)
    with False ab show ?thesis by simp
  qed
qed

lemma globalRebFini_aborted:
  "xaborted s \<or> abortedAt e (clock s) \<Longrightarrow>
     \<exists>s'. globalRebFini e md s = Some s' \<and> files s' = files s \<and> trace s' = trace s"
proof -
  assume "xaborted s \<or> abortedAt e (clock s)"
  then have "(xaborted s \<or> abortedAt e (clock s)) = True" by simp
  then show ?thesis
    by (simp add: globalRebFini_def quiesce_aborted Let_def endStreams_def)
qed

lemma quiesce_returns:
  assumes "\<forall>k. clock s \<le> k \<longrightarrow> \<not> lateAt e k" and "\<not> laterx s"
  shows "\<exists>y. quiesce e n a s = Some y"
  using assms
proof (induction "10 - n" arbitrary: n a s)
  case 0
  then have "\<not> n < 10" by simp
  then show ?case by (subst quiesce.simps) simp
next
  case (Suc d)
  show ?case
  proof (cases a)
    case True
    with quiesce_aborted [of e n s] show ?thesis by auto
  next
    case False
    define s0 where "s0 = s\<lparr>laterx := False, clock := Suc (clock s)\<rparr>"
    from Suc.hyps(2) have n: "n < 10" "d = 10 - Suc n" by simp_all
    have late: "\<not> (laterx s \<or> lateAt e (clock s))"
      using Suc.prems by simp
    have step: "quiesce e n a s = quiesce e (Suc n) (xaborted s \<or> abortedAt e (clock s)) s0"
      using n False late by (subst quiesce.simps) (simp add: Let_def s0_def)
    have "\<exists>y. quiesce e (Suc n) (xaborted s \<or> abortedAt e (clock s)) s0 = Some y"
      by (rule Suc.hyps(1) [OF n(2)]) (use Suc.prems in \<open>simp_all add: s0_def\<close>)
    with step show ?thesis by simp
  qed
qed

lemma quiesce_step:
  "n < 10 \<Longrightarrow> \<not> a \<Longrightarrow>
   quiesce e n a s =
     quiesce e (if \<not> (laterx s \<or> lateAt e (clock s)) then n + 1 else 0)
       (xaborted s \<or> abortedAt e (clock s)) (s\<lparr>laterx := False, clock := Suc (clock s)\<rparr>)"
  by (subst quiesce.simps) (simp add: Let_def)

lemma quiesce_done: "\<not> n < 10 \<Longrightarrow> quiesce e n a s = Some (a, s)"
  by (subst quiesce.simps) simp

lemma quiesce_returns_late:
  assumes "\<forall>k. N \<le> k \<longrightarrow> \<not> lateAt e k"
  shows "\<exists>y. quiesce e n a s = Some y"
  using assms
proof (induction "Suc N - clock s" arbitrary: n a s)
  case 0
  show ?case
  proof (cases "n < 10 \<and> \<not> a")
    case False
    then show ?thesis
      using quiesce_done [of n e a s] quiesce_aborted [of e n s] by (cases a) auto
  next
    case True
    have "\<exists>y. quiesce e (if \<not> (laterx s \<or> lateAt e (clock s)) then n + 1 else 0)
            (xaborted s \<or> abortedAt e (clock s)) (s\<lparr>laterx := False, clock := Suc (clock s)\<rparr>) = Some y"
      by (rule quiesce_returns) (use 0 in simp_all)
    with True show ?thesis by (simp add: quiesce_step)
  qed
next
  case (Suc d)
  show ?case
  proof (cases "n < 10 \<and> \<not> a")
    case False
    then show ?thesis
      using quiesce_done [of n e a s] quiesce_aborted [of e n s] by (cases a) auto
  next
    case True
    have "\<exists>y. quiesce e (if \<not> (laterx s \<or> lateAt e (clock s)) then n + 1 else 0)
            (xaborted s \<or> abortedAt e (clock s)) (s\<lparr>laterx := False, clock := Suc (clock s)\<rparr>) = Some y"
      by (rule Suc.hyps(1)) (use Suc.hyps(2) Suc.prems in simp_all)
    with True show ?thesis by (simp add: quiesce_step)
  qed
qed

lemma quiesce_returns_abort:
  assumes "clock s \<le> k" and "abortedAt e k"
  shows "\<exists>y. quiesce e n a s = Some y"
  using assms
proof (induction "k - clock s" arbitrary: n a s)
  case 0
  show ?case
  proof (cases "n < 10 \<and> \<not> a")
    case False
    then show ?thesis
      using quiesce_done [of n e a s] quiesce_aborted [of e n s] by (cases a) auto
  next
    case True
    from 0 have "abortedAt e (clock s)" by simp
    with True show ?thesis by (auto simp: quiesce_step quiesce_aborted)
  qed
next
  case (Suc d)
  show ?case
  proof (cases "n < 10 \<and> \<not> a")
    case False
    then show ?thesis
      using quiesce_done [of n e a s] quiesce_aborted [of e n s] by (cases a) auto
  next
    case True
    have "\<exists>y. quiesce e (if \<not> (laterx s \<or> lateAt e (clock s)) then n + 1 else 0)
            (xaborted s \<or> abortedAt e (clock s)) (s\<lparr>laterx := False, clock := Suc (clock s)\<rparr>) = Some y"
      by (rule Suc.hyps(1)) (use Suc.hyps(2) Suc.prems in simp_all)
    with True show ?thesis by (simp add: quiesce_step)
  qed
qed

lemma globalRebFini_returns:
  assumes "(\<exists>N. \<forall>k. N \<le> k \<longrightarrow> \<not> lateAt e k) \<or> (\<exists>k. clock s \<le> k \<and> abortedAt e k)"
  shows "\<exists>s'. globalRebFini e md s = Some s'"
proof -
  have "\<exists>y. quiesce e 0 (xaborted s \<or> abortedAt e (clock s)) (s\<lparr>clock := Suc (clock s)\<rparr>) = Some y"
    using assms
  proof
    assume "\<exists>N. \<forall>k. N \<le> k \<longrightarrow> \<not> lateAt e k"
    then obtain N where "\<forall>k. N \<le> k \<longrightarrow> \<not> lateAt e k" ..
    then show ?thesis by (rule quiesce_returns_late)
  next
    assume "\<exists>k. clock s \<le> k \<and> abortedAt e k"
    then obtain k where k: "clock s \<le> k" "abortedAt e k" by blast
    show ?thesis
    proof (cases "k = clock s")
      case True
      with k show ?thesis by (auto simp: quiesce_aborted)
    next
      case False
      with k have "clock (s\<lparr>clock := Suc (clock s)\<rparr>) \<le> k" by simp
      then show ?thesis using k(2) by (rule quiesce_returns_abort)
    qed
  qed
  then show ?thesis
    by (auto simp: globalRebFini_def Let_def split: prod.splits)
qed

text \<open>
  C5 as stated fails where the removal of the marker fails: the run is not aborted,
  \<^verbatim>\<open>globalRebFini\<close> returns, and the marker is still there; the failure is only logged.
\<close>

theorem marker_lifecycle_counterexample:
  "globalRebFini envKeep mdRun tgtFin =
     Some (tgtFin\<lparr>stage := rebStageDone, semaCh := 1, xfinished := True, clock := 11,
                  trace := [FileRemove ''/etc/ais/.global_rebalancing'',
                            LogRemoveFailed ''/etc/ais/.global_rebalancing'']\<rparr>) \<and>
   \<not> xaborted tgtFin \<and> (\<forall>k. \<not> abortedAt envKeep k) \<and>
   pmarker mdRun \<in> files (tgtFin\<lparr>stage := rebStageDone, semaCh := 1, xfinished := True, clock := 11,
                  trace := [FileRemove ''/etc/ais/.global_rebalancing'',
                            LogRemoveFailed ''/etc/ais/.global_rebalancing'']\<rparr>)"
  by (simp add: globalRebFini_def quiesce_step quiesce_done Let_def envKeep_def envOk_def mdRun_def
      tgtFin_def tgt0_def RemoveFile_def logev_def endStreams_def rebStageFin_def
      rebStageFinStreams_def rebStageDone_def)

text \<open>
  C5, amended. \<^verbatim>\<open>globalRebInit\<close> always returns \<^verbatim>\<open>true\<close>; it calls \<^verbatim>\<open>cmn.CreateFile\<close> on the
  marker, which is there afterwards, or, when the call fails, writes an error line, clears
  \<^verbatim>\<open>md.pmarker\<close> and goes on. \<^verbatim>\<open>globalRebFini\<close> of a run whose xaction was aborted before
  (at whatever stage) returns with the files as they were. Whenever it returns, it has called
  \<^verbatim>\<open>cmn.RemoveFile\<close> on \<^verbatim>\<open>md.pmarker\<close> exactly when none of its checks of the xaction found
  an abort: with an abort the files and the trace are untouched; without one the marker is
  removed when the call succeeds, and when the call fails an error line is written and the
  files stay as they were. And it does return when late objects stop arriving at some time,
  or when the xaction is aborted at some time.
\<close>

theorem marker_lifecycle:
  "(\<exists>md' s'. globalRebInit e md s = Some (True, md', s') \<and>
      trace s' = trace s @ FileCreate (markerPath e) #
                   (if createErr e (markerPath e) then [LogCreateFailed (markerPath e)] else []) \<and>
      files s' = (if createErr e (markerPath e) then files s else insert (markerPath e) (files s)) \<and>
      pmarker md' = (if createErr e (markerPath e) then [] else markerPath e)) \<and>
   (xaborted t \<or> abortedAt e (clock t) \<longrightarrow>
      (\<exists>t'. globalRebFini e md t = Some t' \<and> files t' = files t \<and> trace t' = trace t)) \<and>
   (globalRebFini e md t = Some t' \<longrightarrow>
      (if \<exists>k. clock t \<le> k \<and> k < clock t' \<and> (xaborted t \<or> abortedAt e k)
       then files t' = files t \<and> trace t' = trace t
       else trace t' = trace t @ FileRemove (pmarker md) #
                         (if removeErr e (pmarker md) then [LogRemoveFailed (pmarker md)] else []) \<and>
            files t' = (if removeErr e (pmarker md) then files t else files t - {pmarker md}))) \<and>
   ((\<exists>N. \<forall>k. N \<le> k \<longrightarrow> \<not> lateAt e k) \<or> (\<exists>k. clock t \<le> k \<and> abortedAt e k) \<longrightarrow>
      (\<exists>t'. globalRebFini e md t = Some t'))"
  using globalRebInit_marker [of e md s] globalRebFini_aborted [of t e md]
    globalRebFini_marker [of e md t t'] globalRebFini_returns [of e t md]
  by blast

lemma globalRebFini_run:
  "globalRebFini envOk mdRun tgtFin =
     Some (tgtFin\<lparr>stage := rebStageDone, semaCh := 1, xfinished := True, clock := 11, files := {},
                  trace := [FileRemove ''/etc/ais/.global_rebalancing'']\<rparr>)"
  by (simp add: globalRebFini_def quiesce_step quiesce_done Let_def envOk_def mdRun_def
      tgtFin_def tgt0_def RemoveFile_def logev_def endStreams_def rebStageFin_def
      rebStageFinStreams_def rebStageDone_def)

lemma globalRebFini_run_late:
  "globalRebFini envLate mdRun tgtFin =
     Some (tgtFin\<lparr>stage := rebStageDone, semaCh := 1, xfinished := True, clock := 14, files := {},
                  trace := [FileRemove ''/etc/ais/.global_rebalancing'']\<rparr>)"
  by (simp add: globalRebFini_def quiesce_step quiesce_done Let_def envLate_def envOk_def mdRun_def
      tgtFin_def tgt0_def RemoveFile_def logev_def endStreams_def rebStageFin_def
      rebStageFinStreams_def rebStageDone_def)

theorem marker_lifecycle_witness:
  "files (tgtFin\<lparr>stage := rebStageDone, semaCh := 1, xfinished := True, clock := 11, files := {},
                 trace := [FileRemove ''/etc/ais/.global_rebalancing'']\<rparr>) =
     files tgtFin - {''/etc/ais/.global_rebalancing''} \<and>
   (\<exists>t'. globalRebFini envAborted mdRun tgtFin = Some t' \<and> files t' = files tgtFin \<and>
         trace t' = trace tgtFin) \<and>
   (\<exists>t'. globalRebFini envLate mdRun tgtFin = Some t')"
proof -
  have "\<not> (\<exists>k. clock tgtFin \<le> k \<and> k < 11 \<and> (xaborted tgtFin \<or> abortedAt envOk k))"
    by (simp add: envOk_def tgtFin_def tgt0_def)
  moreover have "\<exists>N. \<forall>k. N \<le> k \<longrightarrow> \<not> lateAt envLate k"
    by (intro exI [of _ 4]) (simp add: envLate_def)
  ultimately show ?thesis
    using marker_lifecycle [of envOk mdRun tgtFin tgtFin
      "tgtFin\<lparr>stage := rebStageDone, semaCh := 1, xfinished := True, clock := 11, files := {},
                  trace := [FileRemove ''/etc/ais/.global_rebalancing'']\<rparr>"]
      marker_lifecycle [of envAborted mdRun tgtFin tgtFin]
      marker_lifecycle [of envLate mdRun tgtFin tgtFin]
      globalRebFini_run
    by (simp add: envOk_def envAborted_def mdRun_def tgtFin_def tgt0_def)
qed

subsection \<open>The walk callback and a load error\<close>

text \<open>
  For a file entry that is no directory, whose object initializes, has a home other than the
  target itself and is not in the GFN filter, in a run that is neither aborted nor finished
  and whose snapshot is current: when \<^verbatim>\<open>lom.Load\<close> returns an error, the callback sends
  nothing, leaves the target as it is, and returns that error to the traversal, where its
  skip cases (a directory, an object that does not initialize, an object at home, an object
  in the filter) return \<^verbatim>\<open>nil\<close>. What the traversal does with the error is decided in
  \<^verbatim>\<open>fs.Walk\<close>, which is not among the sources.
\<close>

lemma walk_load_error_returned:
  assumes "\<not> (xaborted s \<or> abortedAt e (clock s) \<or> xfinished s)"
    and "\<not> deIsDir de" and "deLom de = Some l"
    and "hrwTarget e l = Inr tsi" and "tsi \<noteq> selfID e"
    and "\<not> jver rj < nverAt e (clock s)"
    and "Uname l \<notin> filterGFN s"
    and "loadErr l"
  shows "walk e rj de s = Returns (Some ErrLoad, s)"
  using assms by (simp add: walk_def)

lemma walk_skip_returns_nil:
  assumes "\<not> (xaborted s \<or> abortedAt e (clock s) \<or> xfinished s)"
    and "deIsDir de \<or> deLom de = None \<or> (\<exists>l. deLom de = Some l \<and> hrwTarget e l = Inr (selfID e))"
  shows "walk e rj de s = Returns (None, s)"
  using assms by (auto simp: walk_def)

lemma walk_load_error_run:
  "walk envOk jog1 deX tgt0 = Returns (Some ErrLoad, tgt0) \<and>
   walk envOk jog1 deA tgt0 =
     Returns (None, tgt0\<lparr>lomacks := [\<lparr>mu = False, q = []\<rparr>, \<lparr>mu = False, q = [(''ais/bck/a'', lomA)]\<rparr>],
                         rlocks := (\<lambda>u. 0)(''ais/bck/a'' := 1),
                         trace := [LomLock ''ais/bck/a'', AckInsert 1 ''ais/bck/a'',
                                   SendV ''ais/bck/a'' ''t2'']\<rparr>)"
  by (simp add: walk_def envOk_def jog1_def deX_def deA_def lomX_def lomA_def tgt0_def
      send_def Let_def tgt_ops)

subsection \<open>The receive handler\<close>

text \<open>
  C4. With a snapshot pointer that stays nil, a retry time of 10 s, a send-file timeout of
  60 s and steps of 2 s, the handler sleeps six times, writes the error line and returns:
  it has not put the object, and it has not drained the reader, which the path for an
  aborted or absent rebalance does.
\<close>

theorem recvObj_timeout_not_drained:
  "recvObj rxNever False hdrA =
     Some [RxLogWarning, RxSleep 2000000000, RxSleep 2000000000, RxSleep 2000000000,
           RxSleep 2000000000, RxSleep 2000000000, RxSleep 2000000000, RxLogError] \<and>
   RxDrain \<notin> set [RxLogWarning, RxSleep 2000000000, RxSleep 2000000000, RxSleep 2000000000,
           RxSleep 2000000000, RxSleep 2000000000, RxSleep 2000000000, RxLogError]"
  by (simp add: recvObj_def rxNever_def hdrA_def Let_def MinDur_def go_div_def wait_smap.simps
      int64_def)

text \<open>
  The same for every configuration: a run of the handler that returns without ever having
  seen the pointer has not touched the reader.
\<close>

lemma wait_smap_never:
  assumes "wait_smap e sl mx c k evs = Some y" and "\<forall>k. smapAt e k = None"
  shows "fst y = None \<and> mx \<le> fst (snd y) \<and> set (snd (snd y)) \<subseteq> set evs \<union> {RxSleep sl}"
  using assms
proof (induction e sl mx c k evs y rule: wait_smap.raw_induct [rotated 1, consumes 1, case_names step])
  case (step wf e sl mx c k evs y)
  show ?case
  proof (cases "c < mx")
    case True
    with step(2,3) have "wf e sl mx (int64 (c + sl)) (Suc k) (evs @ [RxSleep sl]) = Some y"
      by simp
    from step(1) [OF this step(3)] show ?thesis by auto
  next
    case False
    with step(2) show ?thesis by auto
  qed
qed

lemma recvObj_never_published:
  assumes "\<forall>k. smapAt e k = None" and "recvObj e False hdr = Some evs"
  shows "RxDrain \<notin> set evs \<and> (\<forall>h ok. RxPut h ok \<notin> set evs)"
proof -
  define sl where "sl = CplaneOperation (rxConfig e)"
  define mx where "mx = MinDur (DestRetryTime (rxConfig e)) (go_div (SendFile (rxConfig e)) 3)"
  from assms obtain y where
    w: "wait_smap e sl mx 0 1 [RxLogWarning, RxSleep sl] = Some y"
    by (auto simp: recvObj_def Let_def sl_def mx_def split: option.splits)
  from wait_smap_never [OF w assms(1)] have y:
    "fst y = None" "mx \<le> fst (snd y)" "set (snd (snd y)) \<subseteq> {RxLogWarning, RxSleep sl}"
    by auto
  obtain sm c evs1 where yy: "y = (sm, c, evs1)" by (cases y)
  with assms w y have "evs = evs1 @ [RxLogError]"
    by (auto simp: recvObj_def Let_def sl_def mx_def)
  with y yy show ?thesis by auto
qed



lemma waited_exact:
  "0 \<le> sl \<Longrightarrow> is_int64 (int n * sl) \<Longrightarrow> waited sl n = int n * sl"
proof (induction n)
  case 0
  then show ?case by simp
next
  case (Suc n)
  from Suc.prems have le: "int n * sl \<le> int (Suc n) * sl"
    by (simp add: distrib_right)
  from Suc.prems have "0 \<le> int n * sl"
    by simp
  with le Suc.prems(2) have "is_int64 (int n * sl)"
    by (simp add: is_int64_def)
  with Suc have "waited sl n = int n * sl" by simp
  with Suc.prems(2) show ?case
    by (simp add: int64_def is_int64_def distrib_right)
qed






end
